theory Spec2Isabelle
  imports Main "HOL-Library.Word"
begin

unbundle bit_operations_syntax

section \<open>The build: what the source leaves to the compiler\<close>

text \<open>
  \<^verbatim>\<open>charconverters.cpp\<close> is written over \<^verbatim>\<open>wchar_t\<close>, whose width and signedness the
  compiler fixes, and its decoder is split by \<^verbatim>\<open>#ifdef _WIN32\<close>. A build is therefore
  \<^item> the type \<open>'w word\<close> of a wide unit (\<open>16 word\<close> for MSVC, \<open>32 word\<close> for GCC and
    Clang on Linux),
  \<^item> whether \<^verbatim>\<open>wchar_t\<close> is a signed type (it is not for MSVC; it is for x86 Linux),
  \<^item> whether the compiler predefines \<^verbatim>\<open>_WIN32\<close>.
  The macro \<^verbatim>\<open>WideCharIsUTF16\<close> is no parameter: \<^verbatim>\<open>charconverters.hpp\<close> line 5 defines
  it in every build, and nothing defines \<^verbatim>\<open>WideCharIsUTF32\<close>. So the encoder below is
  the text between \<^verbatim>\<open>#ifdef WideCharIsUTF16\<close> and \<^verbatim>\<open>#endif\<close> kept, and the text
  between \<^verbatim>\<open>#ifdef WideCharIsUTF32\<close> and \<^verbatim>\<open>#endif\<close> dropped.
\<close>

record platform =
  WIN32 :: bool
  wchar_signed :: bool

definition windows :: platform where
  "windows = \<lparr>WIN32 = True, wchar_signed = False\<rparr>"

definition linux :: platform where
  "linux = \<lparr>WIN32 = False, wchar_signed = True\<rparr>"

text \<open>
  A \<^verbatim>\<open>wchar_t\<close> operand of a comparison, a shift or a bitwise operator is first promoted
  to an integer type that holds all its values; \<open>promote\<close> is that value.
\<close>

definition promote :: "platform \<Rightarrow> 'w::len word \<Rightarrow> int" where
  "promote p wchar = (if wchar_signed p then sint wchar else uint wchar)"

section \<open>Outcomes\<close>

text \<open>
  The three \<^verbatim>\<open>throw std::invalid_argument\<close> of the source, named after their messages:
  \<^item> \<open>UnexpectedLowSurrogate\<close>: "Invalid UTF-16 sequence: unexpected low surrogate"
    (the specification's \<^verbatim>\<open>UnpairedLowSurrogate\<close>),
  \<^item> \<open>LowSurrogateOutOfRange\<close>: "Invalid UTF-16 sequence: low surrogate is out of range"
    (the specification's \<^verbatim>\<open>SurrogateOutOfRange\<close>),
  \<^item> \<open>InvalidCharacter\<close>: "Invalid character" (the specification's \<^verbatim>\<open>InvalidLeadByte\<close>).
  \<open>OutOfBoundsRead pos\<close> is no exception: it records that the code evaluated
  \<^verbatim>\<open>in[pos]\<close> on a \<^verbatim>\<open>std::u8string_view\<close> with \<^verbatim>\<open>pos >= in.size()\<close>, which reads past the
  end of the view and has undefined behaviour.
\<close>

datatype error =
    UnexpectedLowSurrogate
  | LowSurrogateOutOfRange
  | InvalidCharacter
  | OutOfBoundsRead nat

section \<open>WideStrToUTF8\<close>

text \<open>
  The body of the \<^verbatim>\<open>for\<close> loop, for one \<^verbatim>\<open>wchar = in[i]\<close>. The state is the pair of
  \<^verbatim>\<open>out\<close> and \<^verbatim>\<open>codePoint\<close> (a \<^verbatim>\<open>uint32_t\<close>). \<^verbatim>\<open>static_cast<char8_t>\<close> keeps the
  low eight bits.
\<close>

fun encode_unit ::
  "platform \<Rightarrow> 8 word list \<times> 32 word \<Rightarrow> 'w::len word \<Rightarrow> error + (8 word list \<times> 32 word)"
where
  "encode_unit p (out, codePoint) wchar =
    (let w = promote p wchar in
     if w \<le> 0x7F then
       Inr (out @ [word_of_int w], codePoint)
     else if w \<le> 0x07FF then
       Inr (out @ [word_of_int (drop_bit 6 w OR 0xC0),
                   word_of_int ((w AND 0x3F) OR 0x80)], codePoint)
     else if 0xD800 \<le> w \<and> w \<le> 0xDBFF then
       Inr (out, word_of_int ((w - 0xD800) * 0x400))
     else if 0xDC00 \<le> w \<and> w \<le> 0xDFFF then
       (if 0xD800 \<le> codePoint \<and> codePoint \<le> 0xDFFF then Inl UnexpectedLowSurrogate
        else
          let codePoint = codePoint + word_of_int (w - 0xDC00);
              codePoint = codePoint + 0x10000
          in if codePoint > 0x10FFFF then Inl LowSurrogateOutOfRange
             else Inr (out @ [ucast (drop_bit 18 codePoint OR 0xF0),
                              ucast ((drop_bit 12 codePoint AND 0x3F) OR 0x80),
                              ucast ((drop_bit 6 codePoint AND 0x3F) OR 0x80),
                              ucast ((codePoint AND 0x3F) OR 0x80)], codePoint))
     else
       Inr (out @ [word_of_int (drop_bit 12 w OR 0xE0),
                   word_of_int ((drop_bit 6 w AND 0x3F) OR 0x80),
                   word_of_int ((w AND 0x3F) OR 0x80)], codePoint))"

text \<open>
  The loop \<^verbatim>\<open>for (size_t i = 0; i < in.size(); ++i)\<close> reads \<^verbatim>\<open>in[i]\<close> only, so it is
  a recursion over the units in order; an exception ends it.
\<close>

fun encode_loop ::
  "platform \<Rightarrow> 'w::len word list \<Rightarrow> 8 word list \<times> 32 word \<Rightarrow> error + 8 word list"
where
  "encode_loop p [] (out, codePoint) = Inr out"
| "encode_loop p (wchar # rest) st =
    (case encode_unit p st wchar of
       Inl e \<Rightarrow> Inl e
     | Inr st' \<Rightarrow> encode_loop p rest st')"

text \<open>
  \<^verbatim>\<open>out.reserve(in.size() * 4)\<close> only sets the capacity of \<^verbatim>\<open>out\<close>; the result does not
  depend on it. \<^verbatim>\<open>codePoint\<close> is initialised once, before the loop.
\<close>

definition WideStrToUTF8 :: "platform \<Rightarrow> 'w::len word list \<Rightarrow> error + 8 word list" where
  "WideStrToUTF8 p inp = encode_loop p inp ([], 0)"

section \<open>UTF8ToWideStr\<close>

text \<open>
  \<^verbatim>\<open>in[pos]\<close>, promoted to \<^verbatim>\<open>int\<close>. The loop condition guards \<^verbatim>\<open>in[i]\<close> only; the
  reads of \<^verbatim>\<open>in[i + 1]\<close>, \<^verbatim>\<open>in[i + 2]\<close> and \<^verbatim>\<open>in[i + 3]\<close> are unguarded in the source.
\<close>

definition rd :: "8 word list \<Rightarrow> nat \<Rightarrow> error + int" where
  "rd inp pos = (if pos < length inp then Inr (uint (inp ! pos)) else Inl (OutOfBoundsRead pos))"

text \<open>
  The value of a four-byte run. Both the \<^verbatim>\<open>_WIN32\<close> text and the \<^verbatim>\<open>#else\<close> text write it
  as \<^verbatim>\<open>((in[i] & 0x07) << 24) | ((in[i + 1] & 0x3F) << 12) | ((in[i + 2] & 0x3F) << 6) | (in[i + 3] & 0x3F)\<close>,
  on operands promoted to \<^verbatim>\<open>int\<close>; the largest value, \<open>0x703FFFF\<close>, fits an \<^verbatim>\<open>int\<close> of 32
  bits.
\<close>

definition four_byte_value :: "int \<Rightarrow> int \<Rightarrow> int \<Rightarrow> int \<Rightarrow> int" where
  "four_byte_value b0 b1 b2 b3 =
     push_bit 24 (b0 AND 0x07) OR push_bit 12 (b1 AND 0x3F) OR push_bit 6 (b2 AND 0x3F) OR (b3 AND 0x3F)"

text \<open>
  The two units the \<^verbatim>\<open>_WIN32\<close> text pushes for a four-byte run, and the one unit the
  \<^verbatim>\<open>#else\<close> text pushes. \<^verbatim>\<open>u32\<close> is a \<^verbatim>\<open>uint32_t\<close>, so \<^verbatim>\<open>u32 - 0x10000\<close> wraps, and
  \<^verbatim>\<open>static_cast<wchar_t>\<close> keeps the low bits that fit a unit.
\<close>

definition four_byte_units :: "platform \<Rightarrow> int \<Rightarrow> int \<Rightarrow> int \<Rightarrow> int \<Rightarrow> 'w::len word list" where
  "four_byte_units p b0 b1 b2 b3 =
     (if WIN32 p then
        (let u32 = (word_of_int (four_byte_value b0 b1 b2 b3) :: 32 word) in
         [ucast (drop_bit 10 (u32 - 0x10000) + 0xD800),
          ucast (u32 mod 0x400 + 0xDC00)])
      else [word_of_int (four_byte_value b0 b1 b2 b3)])"

function decode_loop ::
  "platform \<Rightarrow> 8 word list \<Rightarrow> nat \<Rightarrow> 'w::len word list \<Rightarrow> error + 'w word list"
where
  "decode_loop p inp i out =
    (if i < length inp then
       (let b0 = uint (inp ! i) in
        if b0 AND 0x80 = 0 then
          decode_loop p inp (i + 1) (out @ [word_of_int b0])
        else if b0 AND 0xE0 = 0xC0 then
          (case rd inp (i + 1) of Inl e \<Rightarrow> Inl e | Inr b1 \<Rightarrow>
             decode_loop p inp (i + 2)
               (out @ [word_of_int (push_bit 6 (b0 AND 0x1F) OR (b1 AND 0x3F))]))
        else if b0 AND 0xF0 = 0xE0 then
          (case rd inp (i + 1) of Inl e \<Rightarrow> Inl e | Inr b1 \<Rightarrow>
          (case rd inp (i + 2) of Inl e \<Rightarrow> Inl e | Inr b2 \<Rightarrow>
             decode_loop p inp (i + 3)
               (out @ [word_of_int (push_bit 12 (b0 AND 0x0F) OR push_bit 6 (b1 AND 0x3F)
                                    OR (b2 AND 0x3F))])))
        else if b0 AND 0xF8 = 0xF0 then
          (case rd inp (i + 1) of Inl e \<Rightarrow> Inl e | Inr b1 \<Rightarrow>
          (case rd inp (i + 2) of Inl e \<Rightarrow> Inl e | Inr b2 \<Rightarrow>
          (case rd inp (i + 3) of Inl e \<Rightarrow> Inl e | Inr b3 \<Rightarrow>
             decode_loop p inp (i + 4) (out @ four_byte_units p b0 b1 b2 b3))))
        else Inl InvalidCharacter)
     else Inr out)"
  by pat_completeness auto
termination
  by (relation "measure (\<lambda>(p, inp, i, out). length inp - i)") auto

definition UTF8ToWideStr :: "platform \<Rightarrow> 8 word list \<Rightarrow> error + 'w::len word list" where
  "UTF8ToWideStr p inp = decode_loop p inp 0 []"

section \<open>The wide encoding of a code point\<close>

text \<open>
  The specification's \<^verbatim>\<open>wideEncodingOf\<close> for 16-bit units, in its own words: a code point
  up to U+FFFF is one unit, a code point above is the surrogate pair
  \<^verbatim>\<open>((cp - 0x10000) >> 10) + 0xD800\<close>, \<^verbatim>\<open>(cp - 0x10000) % 0x400 + 0xDC00\<close>. The source has
  no such function; the round trip and the four-byte run are measured against it.
\<close>

definition wideEncodingOf :: "nat \<Rightarrow> 16 word list" where
  "wideEncodingOf cp =
     (if cp < 0x10000 then [of_nat cp]
      else [of_nat (drop_bit 10 (cp - 0x10000) + 0xD800),
            of_nat ((cp - 0x10000) mod 0x400 + 0xDC00)])"

text \<open>
  The code point of a four-byte run as the specification combines it, the lead byte's
  three payload bits shifted by 18.
\<close>

definition spec_four_byte_value :: "int \<Rightarrow> int \<Rightarrow> int \<Rightarrow> int \<Rightarrow> int" where
  "spec_four_byte_value b0 b1 b2 b3 =
     push_bit 18 (b0 AND 0x07) OR push_bit 12 (b1 AND 0x3F) OR push_bit 6 (b2 AND 0x3F) OR (b3 AND 0x3F)"

section \<open>Evaluation and helper lemmas\<close>

text \<open>
  \<open>decode_loop.simps\<close> is one equation of \<open>decode_loop\<close> in terms of itself, so it
  is used by hand only.
\<close>

declare decode_loop.simps [simp del]

lemmas encoder_eval = WideStrToUTF8_def promote_def Let_def
lemmas decoder_eval = UTF8ToWideStr_def decode_loop.simps rd_def
  four_byte_units_def four_byte_value_def
lemmas builds = windows_def linux_def

lemma ascii_top_bit_clear:
  fixes x :: int
  assumes "0 \<le> x" and "x \<le> 0x7F"
  shows "x AND 0x80 = 0"
proof -
  from assms have "x div 2 ^ 7 = 0" by simp
  then have "\<not> bit x 7" by (simp add: bit_iff_odd)
  then have "x AND 2 ^ 7 = 0" by (rule and_exp_eq_0_iff_not_bit [THEN iffD2])
  then show ?thesis by simp
qed

lemma lead_test_uint:
  fixes b m c :: "8 word"
  shows "(uint b AND uint m = uint c) = (b AND m = c)"
  by (simp add: word_uint_eq_iff uint_and)

lemma uint_byte_of_ascii:
  fixes x :: int
  assumes "0 \<le> x" and "x \<le> 0x7F"
  shows "uint (word_of_int x :: 8 word) = x"
  using assms by (simp add: uint_word_of_int_eq take_bit_int_eq_self)

lemma promote_unit_of_ascii:
  fixes x :: int
  assumes "8 \<le> LENGTH('w::len)" and "0 \<le> x" and "x \<le> 0x7F"
  shows "promote p (word_of_int x :: 'w word) = x"
proof -
  have "(2::int) ^ 7 \<le> 2 ^ (LENGTH('w) - 1)"
    using assms(1) by (intro power_increasing) auto
  then have lt: "x < 2 ^ (LENGTH('w) - 1)" using assms(3) by simp
  also have "(2::int) ^ (LENGTH('w) - 1) \<le> 2 ^ LENGTH('w)"
    by (intro power_increasing) auto
  finally have lt': "x < 2 ^ LENGTH('w)" .
  have "- (2 ^ (LENGTH('w) - 1)) \<le> x"
    using assms(2) by (smt (verit) zero_le_power)
  with lt lt' assms(2) show ?thesis
    by (simp add: promote_def uint_word_of_int_eq sint_sbintrunc'
        take_bit_int_eq_self signed_take_bit_int_eq_self)
qed

subsection \<open>The encoder on units up to 0x7F\<close>

lemma encode_loop_ascii:
  fixes ws :: "'w::len word list"
  assumes "\<forall>v\<in>set ws. promote p v \<le> 0x7F"
  shows "encode_loop p ws (out, codePoint) = Inr (out @ map (\<lambda>v. word_of_int (promote p v)) ws)"
  using assms by (induction ws arbitrary: out) (simp_all add: Let_def)

subsection \<open>The decoder on bytes up to 0x7F\<close>

lemma decode_loop_ascii:
  fixes out :: "'w::len word list"
  assumes "\<forall>b\<in>set inp. uint b \<le> 0x7F" and "i \<le> length inp"
  shows "decode_loop p inp i out = Inr (out @ map (\<lambda>b. word_of_int (uint b)) (drop i inp))"
  using assms
proof (induction p inp i out rule: decode_loop.induct)
  case (1 p inp i out)
  show ?case
  proof (cases "i < length inp")
    case False
    with "1.prems" have "drop i inp = []" by simp
    with False show ?thesis by (subst decode_loop.simps) simp
  next
    case True
    then have "uint (inp ! i) \<le> 0x7F" using "1.prems"(1) by simp
    then have clear: "uint (inp ! i) AND 0x80 = 0" by (intro ascii_top_bit_clear) simp_all
    have "decode_loop p inp (i + 1) (out @ [word_of_int (uint (inp ! i))])
        = Inr ((out @ [word_of_int (uint (inp ! i))]) @ map (\<lambda>b. word_of_int (uint b)) (drop (i + 1) inp))"
      using True clear "1.prems" by (intro "1.IH"(1)) simp_all
    moreover have "drop i inp = inp ! i # drop (i + 1) inp"
      using True by (simp add: Cons_nth_drop_Suc)
    ultimately show ?thesis
      using True clear by (simp add: decode_loop.simps [of p inp i out])
  qed
qed

subsection \<open>The decoder at a lead byte of no class\<close>

lemma decode_loop_invalid_lead:
  fixes out :: "'w::len word list"
  assumes "i < length inp"
    and "inp ! i AND 0x80 \<noteq> 0" and "inp ! i AND 0xE0 \<noteq> 0xC0"
    and "inp ! i AND 0xF0 \<noteq> 0xE0" and "inp ! i AND 0xF8 \<noteq> 0xF0"
  shows "decode_loop p inp i out = Inl InvalidCharacter"
proof -
  have "uint (inp ! i) AND 0x80 \<noteq> 0"
    using assms(2) lead_test_uint [of "inp ! i" "0x80" "0"] by simp
  moreover have "uint (inp ! i) AND 0xE0 \<noteq> 0xC0"
    using assms(3) lead_test_uint [of "inp ! i" "0xE0" "0xC0"] by simp
  moreover have "uint (inp ! i) AND 0xF0 \<noteq> 0xE0"
    using assms(4) lead_test_uint [of "inp ! i" "0xF0" "0xE0"] by simp
  moreover have "uint (inp ! i) AND 0xF8 \<noteq> 0xF0"
    using assms(5) lead_test_uint [of "inp ! i" "0xF8" "0xF0"] by simp
  ultimately show ?thesis
    using assms(1) by (subst decode_loop.simps) (simp add: Let_def)
qed

subsection \<open>Decoding a prefix that decodes on its own\<close>

lemma rd_Inr_append:
  assumes "rd inp pos = Inr b"
  shows "rd (inp @ suf) pos = Inr b" and "pos < length inp"
  using assms by (simp_all add: rd_def nth_append split: if_splits)

text \<open>
  When the bytes \<open>inp\<close> decode to \<open>ws\<close> from position \<open>i\<close>, every run of \<open>inp\<close>
  ends inside \<open>inp\<close>; with more bytes behind it the cursor reaches \<open>length inp\<close>
  with the same output.
\<close>

lemma decode_loop_prefix:
  fixes out ws :: "'w::len word list"
  assumes "decode_loop p inp i out = Inr ws" and "i \<le> length inp"
  shows "decode_loop p (inp @ suf) i out = decode_loop p (inp @ suf) (length inp) ws"
  using assms
proof (induction p inp i out rule: decode_loop.induct)
  case (1 p inp i out)
  show ?case
  proof (cases "i < length inp")
    case False
    with "1.prems"(2) have i: "i = length inp" by simp
    from "1.prems"(1) False have "ws = out"
      by (subst (asm) decode_loop.simps) simp
    with i show ?thesis by simp
  next
    case True
    let ?b0 = "uint (inp ! i)"
    have nth: "(inp @ suf) ! i = inp ! i" using True by (simp add: nth_append)
    have lt: "i < length (inp @ suf)" using True by simp
    note run = "1.prems"(1) [unfolded decode_loop.simps [of p inp i out]]
    consider (one) "?b0 AND 0x80 = 0"
      | (two) "?b0 AND 0x80 \<noteq> 0" "?b0 AND 0xE0 = 0xC0"
      | (three) "?b0 AND 0x80 \<noteq> 0" "?b0 AND 0xE0 \<noteq> 0xC0" "?b0 AND 0xF0 = 0xE0"
      | (four) "?b0 AND 0x80 \<noteq> 0" "?b0 AND 0xE0 \<noteq> 0xC0" "?b0 AND 0xF0 \<noteq> 0xE0"
          "?b0 AND 0xF8 = 0xF0"
      | (none) "?b0 AND 0x80 \<noteq> 0" "?b0 AND 0xE0 \<noteq> 0xC0" "?b0 AND 0xF0 \<noteq> 0xE0"
          "?b0 AND 0xF8 \<noteq> 0xF0"
      by blast
    then show ?thesis
    proof cases
      case one
      from run True one
      have rest: "decode_loop p inp (i + 1) (out @ [word_of_int ?b0]) = Inr ws"
        by (simp add: Let_def)
      have "decode_loop p (inp @ suf) (i + 1) (out @ [word_of_int ?b0])
          = decode_loop p (inp @ suf) (length inp) ws"
        using True one rest by (intro "1.IH"(1)) simp_all
      then show ?thesis
        using lt nth one by (subst decode_loop.simps) (simp add: Let_def)
    next
      case two
      from run True two obtain b1 where
        r1: "rd inp (i + 1) = Inr b1" and
        rest: "decode_loop p inp (i + 2)
                 (out @ [word_of_int (push_bit 6 (?b0 AND 0x1F) OR (b1 AND 0x3F))]) = Inr ws"
        by (auto simp: Let_def split: sum.splits)
      have "decode_loop p (inp @ suf) (i + 2)
              (out @ [word_of_int (push_bit 6 (?b0 AND 0x1F) OR (b1 AND 0x3F))])
          = decode_loop p (inp @ suf) (length inp) ws"
        using True two r1 rest rd_Inr_append(2) [OF r1]
        by (intro "1.IH"(2) [of ?b0 b1]) simp_all
      then show ?thesis
        using lt nth two rd_Inr_append(1) [OF r1]
        by (subst decode_loop.simps) (simp add: Let_def)
    next
      case three
      from run True three obtain b1 b2 where
        r1: "rd inp (i + 1) = Inr b1" and r2: "rd inp (i + 2) = Inr b2" and
        rest: "decode_loop p inp (i + 3)
                 (out @ [word_of_int (push_bit 12 (?b0 AND 0x0F) OR push_bit 6 (b1 AND 0x3F)
                                      OR (b2 AND 0x3F))]) = Inr ws"
        by (auto simp: Let_def split: sum.splits)
      have "decode_loop p (inp @ suf) (i + 3)
              (out @ [word_of_int (push_bit 12 (?b0 AND 0x0F) OR push_bit 6 (b1 AND 0x3F)
                                   OR (b2 AND 0x3F))])
          = decode_loop p (inp @ suf) (length inp) ws"
        using True three r1 r2 rest rd_Inr_append(2) [OF r2]
        by (intro "1.IH"(3) [of ?b0 b1 b2]) simp_all
      then show ?thesis
        using lt nth three rd_Inr_append(1) [OF r1] rd_Inr_append(1) [OF r2]
        by (subst decode_loop.simps) (simp add: Let_def)
    next
      case four
      from run True four obtain b1 b2 b3 where
        r1: "rd inp (i + 1) = Inr b1" and r2: "rd inp (i + 2) = Inr b2" and
        r3: "rd inp (i + 3) = Inr b3" and
        rest: "decode_loop p inp (i + 4) (out @ four_byte_units p ?b0 b1 b2 b3) = Inr ws"
        by (auto simp: Let_def split: sum.splits)
      have "decode_loop p (inp @ suf) (i + 4) (out @ four_byte_units p ?b0 b1 b2 b3)
          = decode_loop p (inp @ suf) (length inp) ws"
        using True four r1 r2 r3 rest rd_Inr_append(2) [OF r3]
        by (intro "1.IH"(4) [of ?b0 b1 b2 b3]) simp_all
      then show ?thesis
        using lt nth four rd_Inr_append(1) [OF r1] rd_Inr_append(1) [OF r2]
          rd_Inr_append(1) [OF r3]
        by (subst decode_loop.simps) (simp add: Let_def)
    next
      case none
      with run True show ?thesis by (simp add: Let_def)
    qed
  qed
qed

subsection \<open>Runs of one, two and three bytes, bit by bit\<close>

text \<open>
  The masks and marks of the source as bit patterns, so that an equation between bytes
  is an equation between their bits.
\<close>

lemma mask_C0: "(0xC0::int) = push_bit 6 (mask 2)"
  by (simp add: mask_eq_exp_minus_1)

lemma mask_E0: "(0xE0::int) = push_bit 5 (mask 3)"
  by (simp add: mask_eq_exp_minus_1)

lemma mask_F0: "(0xF0::int) = push_bit 4 (mask 4)"
  by (simp add: mask_eq_exp_minus_1)

lemma mask_1F: "(0x1F::int) = mask 5"
  by (simp add: mask_eq_exp_minus_1)

lemma mask_3F: "(0x3F::int) = mask 6"
  by (simp add: mask_eq_exp_minus_1)

lemma mask_0F: "(0x0F::int) = mask 4"
  by (simp add: mask_eq_exp_minus_1)

lemmas byte_masks = mask_C0 mask_E0 mask_F0 mask_1F mask_3F mask_0F

lemma bit_0x80: "bit (0x80::int) n \<longleftrightarrow> n = 7"
  using bit_exp_iff [where 'a = int, of 7 n] by simp

lemma bits_below:
  fixes x :: int
  assumes "0 \<le> x" and "x < 2 ^ k"
  shows "\<exists>y. x = take_bit k y"
  using assms by (metis take_bit_int_eq_self)

lemma two_byte_value:
  fixes x :: int
  assumes "0 \<le> x" "x \<le> 0x7FF"
  shows "push_bit 6 (take_bit 8 (drop_bit 6 x OR 0xC0) AND 0x1F)
         OR (take_bit 8 ((x AND 0x3F) OR 0x80) AND 0x3F) = x"
proof -
  from assms have "\<exists>y. x = take_bit 11 y" by (intro bits_below) simp_all
  then obtain y where x: "x = take_bit 11 y" ..
  show ?thesis
    unfolding x byte_masks
    by (rule bit_eqI) (auto simp: bit_simps bit_0x80)
qed

lemma two_byte_lead:
  fixes x :: int
  assumes "0 \<le> x" "x \<le> 0x7FF"
  shows "take_bit 8 (drop_bit 6 x OR 0xC0) AND 0xE0 = 0xC0"
proof -
  from assms have "\<exists>y. x = take_bit 11 y" by (intro bits_below) simp_all
  then obtain y where x: "x = take_bit 11 y" ..
  show ?thesis
    unfolding x byte_masks
    by (rule bit_eqI) (auto simp: bit_simps)
qed

lemma lead_top_bit:
  fixes h :: int
  assumes "bit c 7"
  shows "take_bit 8 (h OR c) AND 0x80 \<noteq> 0"
proof -
  have "bit (take_bit 8 (h OR c) AND 0x80) 7"
    using assms by (simp add: bit_simps bit_0x80)
  then show ?thesis by (auto simp del: bit_and_iff)
qed

lemma continuation_payload:
  fixes t :: int
  shows "take_bit 8 ((t AND 0x3F) OR 0x80) AND 0x3F = t AND 0x3F"
  unfolding byte_masks by (rule bit_eqI) (auto simp: bit_simps bit_0x80)

lemma three_byte_lead_payload:
  fixes x :: int
  assumes "0 \<le> x" "x \<le> 0xFFFF"
  shows "take_bit 8 (drop_bit 12 x OR 0xE0) AND 0x0F = drop_bit 12 x"
proof -
  from assms have "\<exists>y. x = take_bit 16 y" by (intro bits_below) simp_all
  then obtain y where x: "x = take_bit 16 y" ..
  show ?thesis
    unfolding x byte_masks
    by (rule bit_eqI) (auto simp: bit_simps)
qed

lemma three_parts:
  fixes x :: int
  shows "push_bit 12 (drop_bit 12 x) OR push_bit 6 (drop_bit 6 x AND 0x3F) OR (x AND 0x3F) = x"
proof (rule bit_eqI)
  fix n :: nat
  consider "n < 6" | "6 \<le> n" "n < 12" | "12 \<le> n" by linarith
  then show "bit (push_bit 12 (drop_bit 12 x) OR push_bit 6 (drop_bit 6 x AND 0x3F) OR (x AND 0x3F)) n
      \<longleftrightarrow> bit x n"
    unfolding byte_masks by cases (auto simp: bit_simps)
qed

lemma three_byte_value:
  fixes x :: int
  assumes "0 \<le> x" "x \<le> 0xFFFF"
  shows "push_bit 12 (take_bit 8 (drop_bit 12 x OR 0xE0) AND 0x0F)
         OR push_bit 6 (take_bit 8 ((drop_bit 6 x AND 0x3F) OR 0x80) AND 0x3F)
         OR (take_bit 8 ((x AND 0x3F) OR 0x80) AND 0x3F) = x"
  by (simp only: continuation_payload three_byte_lead_payload [OF assms] three_parts)

lemma three_byte_lead:
  fixes x :: int
  assumes "0 \<le> x" "x \<le> 0xFFFF"
  shows "take_bit 8 (drop_bit 12 x OR 0xE0) AND 0xF0 = 0xE0"
proof -
  from assms have "\<exists>y. x = take_bit 16 y" by (intro bits_below) simp_all
  then obtain y where x: "x = take_bit 16 y" ..
  show ?thesis
    unfolding x byte_masks
    by (rule bit_eqI) (auto simp: bit_simps)
qed

lemma three_byte_lead_not_two:
  fixes x :: int
  shows "take_bit 8 (drop_bit 12 x OR 0xE0) AND 0xE0 \<noteq> 0xC0"
proof -
  have "bit (take_bit 8 (drop_bit 12 x OR 0xE0) AND 0xE0) 5"
    by (simp add: bit_simps)
  moreover have "\<not> bit (0xC0::int) 5" by simp
  ultimately show ?thesis by metis
qed

text \<open>What the decoder returns on an input that is one run, from the tests on its lead byte.\<close>

lemma encode_bmp_unit:
  fixes w :: "16 word"
  assumes "promote windows w = x" and "x < 0xD800 \<or> 0xDFFF < x"
  shows "WideStrToUTF8 windows [w] = Inr
     (if x \<le> 0x7F then [word_of_int x]
      else if x \<le> 0x7FF then [word_of_int (drop_bit 6 x OR 0xC0), word_of_int ((x AND 0x3F) OR 0x80)]
      else [word_of_int (drop_bit 12 x OR 0xE0), word_of_int ((drop_bit 6 x AND 0x3F) OR 0x80),
            word_of_int ((x AND 0x3F) OR 0x80)])"
  using assms by (auto simp add: WideStrToUTF8_def Let_def)

lemma uint_byte: "uint (word_of_int k :: 8 word) = take_bit 8 k"
  by (simp add: uint_word_of_int_eq)

lemma decode_run_of_one:
  assumes "uint B0 AND 0x80 = 0"
  shows "(UTF8ToWideStr p [B0] :: error + 'w::len word list) = Inr [word_of_int (uint B0)]"
  using assms unfolding UTF8ToWideStr_def
  by (simp add: decode_loop.simps [of _ _ 0] decode_loop.simps [of _ _ "Suc 0"] Let_def
      del: of_int_uint)

lemma decode_run_of_two:
  assumes "uint B0 AND 0x80 \<noteq> 0" and "uint B0 AND 0xE0 = 0xC0"
  shows "(UTF8ToWideStr p [B0, B1] :: error + 'w::len word list)
       = Inr [word_of_int (push_bit 6 (uint B0 AND 0x1F) OR (uint B1 AND 0x3F))]"
  using assms unfolding UTF8ToWideStr_def
  by (simp add: decode_loop.simps rd_def Let_def)

lemma decode_run_of_three:
  assumes "uint B0 AND 0x80 \<noteq> 0" and "uint B0 AND 0xE0 \<noteq> 0xC0" and "uint B0 AND 0xF0 = 0xE0"
  shows "(UTF8ToWideStr p [B0, B1, B2] :: error + 'w::len word list)
       = Inr [word_of_int (push_bit 12 (uint B0 AND 0x0F) OR push_bit 6 (uint B1 AND 0x3F)
                           OR (uint B2 AND 0x3F))]"
  using assms unfolding UTF8ToWideStr_def
  by (simp add: decode_loop.simps rd_def Let_def)

lemma decode_one_byte:
  fixes x :: int
  assumes "0 \<le> x" and "x \<le> 0x7F"
  shows "(UTF8ToWideStr p [word_of_int x] :: error + 'w::len word list) = Inr [word_of_int x]"
proof -
  have u: "uint (word_of_int x :: 8 word) = x"
    using assms by (simp add: uint_word_of_int_eq take_bit_int_eq_self)
  have "x AND 0x80 = 0"
  proof -
    from assms have "\<exists>y. x = take_bit 7 y" by (intro bits_below) simp_all
    then obtain y where x: "x = take_bit 7 y" ..
    show ?thesis unfolding x by (rule bit_eqI) (auto simp: bit_simps bit_0x80)
  qed
  then have "uint (word_of_int x :: 8 word) AND 0x80 = 0" by (simp only: u)
  from decode_run_of_one [OF this, of p, where 'w = 'w] show ?thesis by (simp only: u)
qed

lemma decode_two_bytes:
  fixes x :: int
  assumes "0 \<le> x" and "x \<le> 0x7FF"
  shows "(UTF8ToWideStr p [word_of_int (drop_bit 6 x OR 0xC0), word_of_int ((x AND 0x3F) OR 0x80)]
          :: error + 'w::len word list) = Inr [word_of_int x]"
proof -
  let ?B0 = "word_of_int (drop_bit 6 x OR 0xC0) :: 8 word"
  let ?B1 = "word_of_int ((x AND 0x3F) OR 0x80) :: 8 word"
  have top: "uint ?B0 AND 0x80 \<noteq> 0"
    unfolding uint_byte by (intro lead_top_bit) simp
  have lead: "uint ?B0 AND 0xE0 = 0xC0"
    unfolding uint_byte by (rule two_byte_lead [OF assms])
  have "push_bit 6 (uint ?B0 AND 0x1F) OR (uint ?B1 AND 0x3F) = x"
    unfolding uint_byte by (rule two_byte_value [OF assms])
  with decode_run_of_two [OF top lead, of p ?B1, where 'w = 'w] show ?thesis by (simp only:)
qed

lemma decode_three_bytes:
  fixes x :: int
  assumes "0 \<le> x" and "x \<le> 0xFFFF"
  shows "(UTF8ToWideStr p [word_of_int (drop_bit 12 x OR 0xE0),
            word_of_int ((drop_bit 6 x AND 0x3F) OR 0x80), word_of_int ((x AND 0x3F) OR 0x80)]
          :: error + 'w::len word list) = Inr [word_of_int x]"
proof -
  let ?B0 = "word_of_int (drop_bit 12 x OR 0xE0) :: 8 word"
  let ?B1 = "word_of_int ((drop_bit 6 x AND 0x3F) OR 0x80) :: 8 word"
  let ?B2 = "word_of_int ((x AND 0x3F) OR 0x80) :: 8 word"
  have top: "uint ?B0 AND 0x80 \<noteq> 0"
    unfolding uint_byte by (intro lead_top_bit) simp
  have not_two: "uint ?B0 AND 0xE0 \<noteq> 0xC0"
    unfolding uint_byte by (rule three_byte_lead_not_two)
  have lead: "uint ?B0 AND 0xF0 = 0xE0"
    unfolding uint_byte by (rule three_byte_lead [OF assms])
  have "push_bit 12 (uint ?B0 AND 0x0F) OR push_bit 6 (uint ?B1 AND 0x3F) OR (uint ?B2 AND 0x3F) = x"
    unfolding uint_byte by (rule three_byte_value [OF assms])
  with decode_run_of_three [OF top not_two lead, of p ?B1 ?B2, where 'w = 'w]
  show ?thesis by (simp only:)
qed

section \<open>The round trip\<close>

text \<open>
  C1. The claim: for every code point outside the surrogate range, decoding the UTF-8
  encoding of its wide encoding gives the wide encoding back. In the build for 16-bit
  units it does not hold at U+40000: the wide encoding \<open>[0xD8C0, 0xDC00]\<close> is encoded to
  \<^verbatim>\<open>F1 80 80 80\<close>, and the decoder turns these bytes into \<open>[0x17C0, 0xDC00]\<close>. The
  decoder shifts the three payload bits of the lead byte by 24, where the encoder took
  them from bit 18 on.
\<close>

theorem roundtrip_breaks_at_U40000:
  "wideEncodingOf 0x40000 = [0xD8C0, 0xDC00]
   \<and> WideStrToUTF8 windows (wideEncodingOf 0x40000) = Inr [0xF1, 0x80, 0x80, 0x80]
   \<and> (UTF8ToWideStr windows [0xF1, 0x80, 0x80, 0x80] :: error + 16 word list)
       = Inr [0x17C0, 0xDC00]"
  by (simp add: wideEncodingOf_def encoder_eval decoder_eval builds)

text \<open>
  The round trip stops earlier for U+1D800 to U+1DFFF: the high surrogates \<open>0xD836\<close> and
  \<open>0xD837\<close> leave a carry of \<open>0xD800\<close> or \<open>0xDC00\<close>, which the guard of the low
  surrogate takes for a missing high surrogate.
\<close>

lemma valid_pair_U1D800_rejected:
  "wideEncodingOf 0x1D800 = [0xD836, 0xDC00]
   \<and> WideStrToUTF8 windows (wideEncodingOf 0x1D800) = Inl UnexpectedLowSurrogate"
  by (simp add: wideEncodingOf_def encoder_eval builds)

text \<open>
  For a single unit outside the surrogate range, that is a code point up to U+FFFF, the
  round trip holds in the build for 16-bit units: the runs of one, two and three bytes
  are decoded with the shifts they were encoded with.
\<close>

lemma roundtrip_bmp:
  fixes w :: "16 word"
  assumes "w < 0xD800 \<or> 0xDFFF < w"
  shows "\<exists>bs. WideStrToUTF8 windows [w] = Inr bs
            \<and> (UTF8ToWideStr windows bs :: error + 16 word list) = Inr [w]"
proof -
  define x where "x = uint w"
  have p: "promote windows w = x" by (simp add: promote_def windows_def x_def)
  have bounds: "0 \<le> x" "x \<le> 0xFFFF"
    using uint_lt2p [of w] by (simp_all add: x_def)
  have ns: "x < 0xD800 \<or> 0xDFFF < x"
    using assms by (simp add: x_def word_less_def)
  have same: "(word_of_int x :: 16 word) = w" by (simp add: x_def)
  note enc = encode_bmp_unit [OF p ns]
  show ?thesis
  proof (cases "x \<le> 0x7F")
    case True
    with enc decode_one_byte [OF bounds(1) True, of windows, where 'w = 16] same
    show ?thesis by simp
  next
    case False
    show ?thesis
    proof (cases "x \<le> 0x7FF")
      case True
      with \<open>\<not> x \<le> 0x7F\<close> enc decode_two_bytes [OF bounds(1) True, of windows, where 'w = 16] same
      show ?thesis by simp
    next
      case False
      with \<open>\<not> x \<le> 0x7F\<close> enc decode_three_bytes [OF bounds, of windows, where 'w = 16] same
      show ?thesis by simp
    qed
  qed
qed

section \<open>Four-byte runs\<close>

text \<open>
  C2. The claim: a four-byte run is combined into
  \<^verbatim>\<open>(b1 & 0x07) << 18 | (b2 & 0x3F) << 12 | (b3 & 0x3F) << 6 | (b4 & 0x3F)\<close> and, for 16-bit
  units, emitted as the surrogate pair of that code point. On the run \<^verbatim>\<open>F4 8F BF BF\<close>
  (U+10FFFF) the source combines the bytes into \<open>0x400FFFF\<close>, not \<open>0x10FFFF\<close>, and emits
  \<open>[0xD7FF, 0xDFFF]\<close>, not the pair \<open>[0xDBFF, 0xDFFF]\<close>.
\<close>

theorem four_byte_run_lead_shifted_by_24:
  "four_byte_value 0xF4 0x8F 0xBF 0xBF = 0x400FFFF
   \<and> spec_four_byte_value 0xF4 0x8F 0xBF 0xBF = 0x10FFFF
   \<and> (UTF8ToWideStr windows [0xF4, 0x8F, 0xBF, 0xBF] :: error + 16 word list)
       = Inr [0xD7FF, 0xDFFF]
   \<and> wideEncodingOf 0x10FFFF = [0xDBFF, 0xDFFF]"
  by (simp add: wideEncodingOf_def spec_four_byte_value_def decoder_eval builds)

text \<open>
  C8. For 16-bit units, \<open>[0xD801, 0xDC37]\<close> (U+10437) is encoded to \<^verbatim>\<open>F0 90 90 B7\<close>, and
  \<^verbatim>\<open>F0 90 90 B7\<close> is decoded to \<open>[0xD801, 0xDC37]\<close>. (The lead byte \<^verbatim>\<open>F0\<close> has no
  payload bit set, so the shift of the lead byte does not show.)
\<close>

theorem surrogate_pairing_U10437:
  "WideStrToUTF8 windows [0xD801, 0xDC37 :: 16 word] = Inr [0xF0, 0x90, 0x90, 0xB7]
   \<and> (UTF8ToWideStr windows [0xF0, 0x90, 0x90, 0xB7] :: error + 16 word list)
       = Inr [0xD801, 0xDC37]"
  by (simp add: encoder_eval decoder_eval builds)

text \<open>
  In a four-byte run with lead byte \<^verbatim>\<open>F0\<close> the shifted bits are zero, and the value of the
  source is the value of the specification.
\<close>

lemma four_byte_value_lead_F0:
  "b0 AND 0x07 = 0 \<Longrightarrow> four_byte_value b0 b1 b2 b3 = spec_four_byte_value b0 b1 b2 b3"
  by (simp add: four_byte_value_def spec_four_byte_value_def)

section \<open>Surrogates in the encoder\<close>

text \<open>
  C3. The claim: the encoder fails exactly on an invalid surrogate construction, and the
  lone low surrogate \<open>[0xDC00]\<close> fails as an unpaired low surrogate. The source does not
  fail on \<open>[0xDC00]\<close>: the carry is 0 and not in \<open>0xD800..0xDFFF\<close>, so the guard passes
  and the unit is encoded as U+10000.
\<close>

theorem lone_low_surrogate_is_encoded:
  "WideStrToUTF8 windows [0xDC00 :: 16 word] = Inr [0xF0, 0x90, 0x80, 0x80]
   \<and> WideStrToUTF8 linux [0xDC00 :: 32 word] = Inr [0xF0, 0x90, 0x80, 0x80]"
  by (simp add: encoder_eval builds)

text \<open>A high surrogate with no low surrogate behind it is dropped without an error.\<close>

lemma dangling_high_surrogate_dropped:
  "WideStrToUTF8 windows [0xD800 :: 16 word] = Inr []
   \<and> WideStrToUTF8 windows [0xD800, 0x41 :: 16 word] = Inr [0x41]"
  by (simp add: encoder_eval builds)

text \<open>
  C4. The claim: the carry is zero at the start and cleared after every pairing, so that
  the units behind a completed pair are processed independently of the pair. The source
  starts at zero, but a pairing leaves the code point of the pair in \<^verbatim>\<open>codePoint\<close>: after
  \<open>0xD801, 0xDC37\<close> it is \<open>0x10437\<close>. A low surrogate behind a pair is added to it, so
  the same third unit \<open>0xDC00\<close> gives \<^verbatim>\<open>F0 A0 80 80\<close> behind \<open>0xD800, 0xDC00\<close>,
  \<^verbatim>\<open>F0 A0 90 80\<close> behind \<open>0xD801, 0xDC00\<close>, and an exception behind \<open>0xDBFF, 0xDFFF\<close>.
\<close>

theorem carry_kept_after_pairing:
  "encode_unit windows ([], 0) (0xD801 :: 16 word) = Inr ([], 0x400)
   \<and> encode_unit windows ([], 0x400) (0xDC37 :: 16 word)
       = Inr ([0xF0, 0x90, 0x90, 0xB7], 0x10437)
   \<and> WideStrToUTF8 windows [0xD800, 0xDC00, 0xDC00 :: 16 word]
       = Inr [0xF0, 0x90, 0x80, 0x80, 0xF0, 0xA0, 0x80, 0x80]
   \<and> WideStrToUTF8 windows [0xD801, 0xDC00, 0xDC00 :: 16 word]
       = Inr [0xF0, 0x90, 0x90, 0x80, 0xF0, 0xA0, 0x90, 0x80]
   \<and> WideStrToUTF8 windows [0xDBFF, 0xDFFF, 0xDC00 :: 16 word] = Inl LowSurrogateOutOfRange"
  by (simp add: encoder_eval builds)

text \<open>
  What the carry does not touch: a high surrogate assigns the carry whatever it was, and
  no unit other than a low surrogate reads it. So a high surrogate directly followed by
  its low surrogate is encoded the same behind any units.
\<close>

lemma high_surrogate_sets_carry:
  assumes "0xD800 \<le> promote p wchar" and "promote p wchar \<le> 0xDBFF"
  shows "encode_unit p (out, codePoint) wchar
       = Inr (out, word_of_int ((promote p wchar - 0xD800) * 0x400))"
  using assms by (simp add: Let_def)

lemma carry_read_by_low_surrogate_only:
  assumes "promote p wchar < 0xDC00 \<or> 0xDFFF < promote p wchar"
  shows "map_sum id fst (encode_unit p (out, codePoint) wchar)
       = map_sum id fst (encode_unit p (out, codePoint') wchar)"
  using assms by (auto simp add: Let_def)

section \<open>The width selection\<close>

text \<open>
  C5. The claim: one selection per build governs both operations, so the encoder handles
  surrogates if and only if the decoder writes surrogate pairs. The encoder's branches
  hang on \<^verbatim>\<open>WideCharIsUTF16\<close>, which the header defines in every build; the decoder's hang
  on \<^verbatim>\<open>_WIN32\<close>. In a build without \<^verbatim>\<open>_WIN32\<close> the encoder still pairs \<open>0xD801, 0xDC37\<close>
  into the four bytes of U+10437, and the decoder gives these four bytes back as the one
  unit \<open>0x10437\<close>.
\<close>

theorem surrogate_branches_disagree_without_WIN32:
  "WideStrToUTF8 linux [0xD801, 0xDC37 :: 32 word] = Inr [0xF0, 0x90, 0x90, 0xB7]
   \<and> (UTF8ToWideStr linux [0xF0, 0x90, 0x90, 0xB7] :: error + 32 word list) = Inr [0x10437]"
  by (simp add: encoder_eval decoder_eval builds)

section \<open>Reads of the decoder\<close>

text \<open>
  C6. The claim: the decoder reads positions inside the input only, also when the last
  lead byte announces more bytes than remain. On the one byte \<^verbatim>\<open>C3\<close> the source evaluates
  \<^verbatim>\<open>in[1]\<close>, and on \<^verbatim>\<open>F0 90\<close> it evaluates \<^verbatim>\<open>in[2]\<close>: both are past the end, in every
  build.
\<close>

theorem truncated_run_reads_past_end:
  "(UTF8ToWideStr p [0xC3] :: error + 'w::len word list) = Inl (OutOfBoundsRead 1)
   \<and> (UTF8ToWideStr p [0xF0, 0x90] :: error + 'w::len word list) = Inl (OutOfBoundsRead 2)"
  by (simp add: decoder_eval)

section \<open>Rejected lead bytes\<close>

text \<open>
  C7. When the cursor stands on a byte of none of the four lead classes, the decoder
  throws "Invalid character" and returns no output. The cursor stands on \<open>b\<close> when the
  bytes before it decode on their own. In particular a sequence that starts with the
  continuation byte \<^verbatim>\<open>80\<close> is rejected.
\<close>

theorem invalid_lead_byte:
  fixes pre rest :: "8 word list" and ws :: "'w::len word list"
  assumes "UTF8ToWideStr p pre = Inr ws"
    and "b AND 0x80 \<noteq> 0" and "b AND 0xE0 \<noteq> 0xC0"
    and "b AND 0xF0 \<noteq> 0xE0" and "b AND 0xF8 \<noteq> 0xF0"
  shows "(UTF8ToWideStr p (pre @ b # rest) :: error + 'w word list) = Inl InvalidCharacter
       \<and> (UTF8ToWideStr p (0x80 # rest) :: error + 'w word list) = Inl InvalidCharacter"
proof
  have "(UTF8ToWideStr p (pre @ b # rest) :: error + 'w word list)
      = decode_loop p (pre @ b # rest) (length pre) ws"
    using assms(1) unfolding UTF8ToWideStr_def by (intro decode_loop_prefix) simp_all
  also have "\<dots> = Inl InvalidCharacter"
    using assms(2-5) by (intro decode_loop_invalid_lead) simp_all
  finally show "(UTF8ToWideStr p (pre @ b # rest) :: error + 'w word list) = Inl InvalidCharacter" .
next
  show "(UTF8ToWideStr p (0x80 # rest) :: error + 'w word list) = Inl InvalidCharacter"
    unfolding UTF8ToWideStr_def by (intro decode_loop_invalid_lead) simp_all
qed

theorem invalid_lead_byte_witness:
  "(UTF8ToWideStr windows [0x41, 0xC3, 0xA9] :: error + 16 word list) = Inr [0x41, 0xE9]
   \<and> (0xF8 :: 8 word) AND 0x80 \<noteq> 0 \<and> (0xF8 :: 8 word) AND 0xE0 \<noteq> 0xC0
   \<and> (0xF8 :: 8 word) AND 0xF0 \<noteq> 0xE0 \<and> (0xF8 :: 8 word) AND 0xF8 \<noteq> 0xF0
   \<and> (UTF8ToWideStr windows [0x41, 0xC3, 0xA9, 0xF8, 0x42] :: error + 16 word list)
       = Inl InvalidCharacter
   \<and> (UTF8ToWideStr windows [0x80, 0x42] :: error + 16 word list) = Inl InvalidCharacter"
proof -
  have pre: "(UTF8ToWideStr windows [0x41, 0xC3, 0xA9] :: error + 16 word list) = Inr [0x41, 0xE9]"
    by (simp add: decoder_eval)
  have b: "(0xF8 :: 8 word) AND 0x80 \<noteq> 0" "(0xF8 :: 8 word) AND 0xE0 \<noteq> 0xC0"
    "(0xF8 :: 8 word) AND 0xF0 \<noteq> 0xE0" "(0xF8 :: 8 word) AND 0xF8 \<noteq> 0xF0"
    by simp_all
  from invalid_lead_byte [OF pre b, of "[0x42]"] pre b show ?thesis by simp
qed

section \<open>ASCII and the empty input\<close>

text \<open>
  C9. Units of value 0 to 0x7F are encoded to one byte each, of the same value, and bytes
  of value 0 to 0x7F are decoded to one unit each, of the same value; this holds for
  every run of such values, a single one included. The value of a unit is what the code
  compares, \<open>promote p\<close>; a unit type holds the values up to 0x7F when it has eight bits
  or more.
\<close>

theorem ascii_identity:
  fixes ws :: "'w::len word list" and bs :: "8 word list"
  assumes "8 \<le> LENGTH('w)"
    and "\<forall>v\<in>set ws. 0 \<le> promote p v \<and> promote p v \<le> 0x7F"
    and "\<forall>b\<in>set bs. uint b \<le> 0x7F"
  shows "(\<exists>out. WideStrToUTF8 p ws = Inr out \<and> map uint out = map (promote p) ws)
       \<and> (\<exists>out :: 'w word list. UTF8ToWideStr p bs = Inr out \<and> map (promote p) out = map uint bs)"
proof
  have "WideStrToUTF8 p ws = Inr (map (\<lambda>v. word_of_int (promote p v)) ws)"
    using assms(2) by (simp add: WideStrToUTF8_def encode_loop_ascii)
  moreover have "map uint (map (\<lambda>v. word_of_int (promote p v) :: 8 word) ws) = map (promote p) ws"
    using assms(2) by (simp add: uint_byte_of_ascii)
  ultimately show "\<exists>out. WideStrToUTF8 p ws = Inr out \<and> map uint out = map (promote p) ws"
    by blast
next
  have "(UTF8ToWideStr p bs :: error + 'w word list) = Inr (map (\<lambda>b. word_of_int (uint b)) bs)"
    using assms(3) by (simp add: UTF8ToWideStr_def decode_loop_ascii)
  moreover have "map (promote p) (map (\<lambda>b. word_of_int (uint b) :: 'w word) bs) = map uint bs"
    using assms(1,3) promote_unit_of_ascii [where 'w = 'w and p = p]
    by (simp del: of_int_uint)
  ultimately show "\<exists>out :: 'w word list. UTF8ToWideStr p bs = Inr out \<and> map (promote p) out = map uint bs"
    by blast
qed

theorem ascii_identity_witness:
  "8 \<le> LENGTH(16)
   \<and> 0 \<le> promote windows (0x41 :: 16 word) \<and> promote windows (0x41 :: 16 word) \<le> 0x7F
   \<and> 0 \<le> promote windows (0x7F :: 16 word) \<and> promote windows (0x7F :: 16 word) \<le> 0x7F
   \<and> uint (0x00 :: 8 word) \<le> 0x7F \<and> uint (0x7A :: 8 word) \<le> 0x7F
   \<and> (\<exists>out. WideStrToUTF8 windows [0x41, 0x7F :: 16 word] = Inr out \<and> map uint out = [0x41, 0x7F])
   \<and> (\<exists>out :: 16 word list. UTF8ToWideStr windows [0x00, 0x7A] = Inr out
         \<and> map (promote windows) out = [0x00, 0x7A])"
proof -
  have len: "8 \<le> LENGTH(16)" by simp
  have units: "\<forall>v\<in>set [0x41, 0x7F :: 16 word]. 0 \<le> promote windows v \<and> promote windows v \<le> 0x7F"
    by (simp add: promote_def builds)
  have bytes: "\<forall>b\<in>set [0x00, 0x7A :: 8 word]. uint b \<le> 0x7F"
    by simp
  from ascii_identity [OF len units bytes] units bytes show ?thesis
    by (simp add: promote_def builds)
qed

text \<open>
  C10. On the empty input the loops of both operations do not run: each returns the
  empty output, and nothing is thrown.
\<close>

theorem empty_input:
  "WideStrToUTF8 p ([] :: 'w::len word list) = Inr []
   \<and> (UTF8ToWideStr p [] :: error + 'w::len word list) = Inr []"
  by (simp add: encoder_eval decoder_eval)

end
